theory Spec2Isabelle
  imports Complex_Main "HOL-Library.Word"
begin

section \<open>Data model\<close>

text \<open>
  The byte payload of a document (an ArrayBuffer or Uint8Array in the source) is a list of
  octets. JavaScript numbers are modelled as \<open>int\<close> where the source uses them as
  counters, page numbers and indices, and as \<open>real\<close> where it divides (zoom factors and
  overlay coordinates); rounding of IEEE doubles and NaN are outside the model.
\<close>

type_synonym bytes = "8 word list"

text \<open>
  One entry of \<open>openDocs\<close> (pdf-viewer.js, \<open>loadPDF\<close>). The fields \<open>pdfDoc\<close> (the
  rasterizer's handle of \<open>pdfBytes\<close>) and \<open>thumbnails\<close> (canvases) are rendering handles
  derived from the bytes and are left out. \<open>selectedPages\<close> is a JavaScript \<open>Set\<close>: its
  members in insertion order, without duplicates.
\<close>

record docSession =
  doc_id :: int
  name :: string
  pdfBytes :: bytes
  pageCount :: int
  currentPage :: int
  zoom :: real
  selectedPages :: "int list"

text \<open>A text box of pdf-editor.js (\<open>createTextBox\<close>).\<close>

record textBox =
  box_id :: int
  box_pageNum :: int
  box_x :: real
  box_y :: real
  box_width :: real
  box_height :: real
  box_text :: string
  box_fontSize :: real
  box_fontFamily :: string

text \<open>
  An entry of the undo stack. The source builds it as an object literal:
  \<open>{ type: 'add-text', box: {...box} }\<close> in \<open>createTextBox\<close>, and
  \<open>{ type: T, prevBytes: doc.pdfBytes, ... }\<close> in every operation that calls the document
  engine, with \<open>T\<close> one of the strings below (the further members \<open>pages\<close>,
  \<open>fromPage\<close>, \<open>toPage\<close>, \<open>degrees\<close> are never read back).
\<close>

datatype actionType =
    Delete | Reorder | Redact | SearchRedact | Stamp | Rotate | Crop | InsertBlank
  | PageNumbers | Compress | FillForm | AddField | Flatten

datatype undoAction =
    AddText textBox
  | Snapshot actionType bytes

text \<open>What the core asks of its collaborators, in call order.\<close>

datatype event =
    ShowDialog string string
  | AskDelete int
  | EngineLoad bytes
  | EngineSave bytes
  | RasterLoad bytes

text \<open>
  The external document engine and rasterizer, as far as the core reads their answers:
  \<open>numPages b\<close> is the page count the rasterizer reports for \<open>b\<close> (\<open>None\<close> when
  \<open>getDocument\<close> rejects), \<open>removePages b ps\<close> the bytes the engine saves after loading
  \<open>b\<close> and removing the pages \<open>ps\<close> in that order (\<open>None\<close> when a call throws).
\<close>

record engine =
  numPages :: "bytes \<Rightarrow> int option"
  removePages :: "bytes \<Rightarrow> int list \<Rightarrow> bytes option"

text \<open>
  The module-level state of PDFViewer (\<open>openDocs\<close>, \<open>activeDocIndex\<close>, \<open>nextDocId\<close>), of
  PDFEditor (\<open>textBoxes\<close>, \<open>nextBoxId\<close>, \<open>undoStack\<close>, \<open>redoStack\<close>), the \<open>disabled\<close> flag of
  the toolbar elements that UI.enableToolbarButtons and UI.disableToolbarButtons set, and the
  trace of collaborator calls. Arrays grow at the end: \<open>push\<close> appends, \<open>pop\<close> takes the last
  element, \<open>shift\<close> the first. The page that sets the controls' initial flags is not among
  the sources; \<open>initialApp\<close> starts with none disabled, and no property below depends on it.
\<close>

record app =
  openDocs :: "docSession list"
  activeDocIndex :: int
  nextDocId :: int
  textBoxes :: "textBox list"
  nextBoxId :: int
  undoStack :: "undoAction list"
  redoStack :: "undoAction list"
  disabledButtons :: "string set"
  events :: "event list"

definition initialApp :: app where
  "initialApp = \<lparr> openDocs = [], activeDocIndex = -1, nextDocId = 1,
     textBoxes = [], nextBoxId = 1, undoStack = [], redoStack = [],
     disabledButtons = {}, events = [] \<rparr>"

section \<open>UI chrome (ui.js)\<close>

text \<open>
  Both functions set the \<open>disabled\<close> property of the elements with the given ids (an id
  without an element is passed over); \<open>showDialog\<close> is recorded by its title and message.
\<close>

definition enableToolbarButtons :: "string list \<Rightarrow> app \<Rightarrow> app" where
  "enableToolbarButtons ids s = s\<lparr>disabledButtons := disabledButtons s - set ids\<rparr>"

definition disableToolbarButtons :: "string list \<Rightarrow> app \<Rightarrow> app" where
  "disableToolbarButtons ids s = s\<lparr>disabledButtons := disabledButtons s \<union> set ids\<rparr>"

definition showDialog :: "string \<Rightarrow> string \<Rightarrow> app \<Rightarrow> app" where
  "showDialog title msg s = s\<lparr>events := events s @ [ShowDialog title msg]\<rparr>"

section \<open>Workspace (module PDFViewer)\<close>

text \<open>
  The module exists in two versions, one painting the current page and one painting all
  pages in a scrolling view; they agree on the workspace operations. Where they differ
  (the list of controls, \<open>goToPage\<close> after a zoom or a refresh) the scrolling version is
  followed.
\<close>

text \<open>\<open>Array.prototype.findIndex\<close>: the first index whose element satisfies \<open>P\<close>, else -1.\<close>

fun findIndex :: "('a \<Rightarrow> bool) \<Rightarrow> 'a list \<Rightarrow> int" where
  "findIndex P [] = -1"
| "findIndex P (d # ds) =
     (if P d then 0 else (let i = findIndex P ds in if i = -1 then -1 else i + 1))"

text \<open>\<open>xs.splice(idx, 1)\<close> for an index in range.\<close>

definition splice1 :: "int \<Rightarrow> 'a list \<Rightarrow> 'a list" where
  "splice1 idx xs = take (nat idx) xs @ drop (nat idx + 1) xs"

definition getActiveDoc :: "app \<Rightarrow> docSession option" where
  "getActiveDoc s =
     (if activeDocIndex s < 0 \<or> activeDocIndex s \<ge> int (length (openDocs s)) then None
      else Some (openDocs s ! nat (activeDocIndex s)))"

text \<open>A write to a field of the object \<open>getActiveDoc()\<close> returned.\<close>

definition updateActiveDoc :: "(docSession \<Rightarrow> docSession) \<Rightarrow> app \<Rightarrow> app" where
  "updateActiveDoc f s =
     s\<lparr>openDocs := (openDocs s)[nat (activeDocIndex s) := f (openDocs s ! nat (activeDocIndex s))]\<rparr>"

definition PDF_OPEN_BUTTONS :: "string list" where
  "PDF_OPEN_BUTTONS =
    [''tb-save'', ''tb-print'', ''tb-merge'', ''tb-extract'', ''tb-toword'',
     ''tb-zoomin'', ''tb-zoomout'', ''tb-fitpage'', ''tb-editmode'', ''tb-rotate'',
     ''side-merge'', ''side-extract'', ''side-toword'',
     ''side-print'', ''side-save'',
     ''side-redact-draw'', ''side-redact-search'',
     ''side-highlight'', ''side-underline'', ''side-sticky'', ''side-draw'', ''side-stamp'',
     ''side-rotate'', ''side-crop'', ''side-insert-blank'', ''side-split'', ''side-page-numbers'',
     ''side-fill-fields'', ''side-add-fields'', ''side-flatten'',
     ''side-to-images'', ''side-compress'']"

definition PDF_CLOSE_BUTTONS :: "string list" where
  "PDF_CLOSE_BUTTONS =
    [''tb-save'', ''tb-print'', ''tb-merge'', ''tb-extract'', ''tb-toword'',
     ''tb-zoomin'', ''tb-zoomout'', ''tb-fitpage'', ''tb-editmode'', ''tb-rotate'',
     ''tb-undo'', ''tb-redo'',
     ''side-merge'', ''side-extract'', ''side-toword'',
     ''side-print'', ''side-save'',
     ''side-redact-draw'', ''side-redact-search'',
     ''side-highlight'', ''side-underline'', ''side-sticky'', ''side-draw'', ''side-stamp'',
     ''side-rotate'', ''side-crop'', ''side-insert-blank'', ''side-split'', ''side-page-numbers'',
     ''side-fill-fields'', ''side-add-fields'', ''side-flatten'',
     ''side-to-images'', ''side-compress'']"

text \<open>
  \<open>loadPDF\<close>: the rasterizer decodes the bytes; on success a session with
  \<open>currentPage = 1\<close>, \<open>zoom = 1\<close> and an empty selection is appended and made active, and
  the document-scoped controls are enabled. On failure the \<open>catch\<close> block shows a dialog
  (its message, which quotes the file name and the error, is shortened here) and the
  workspace is as before.
\<close>

definition loadPDF :: "engine \<Rightarrow> bytes \<Rightarrow> string \<Rightarrow> app \<Rightarrow> app" where
  "loadPDF eng arrayBuffer fileName s =
     (let s0 = s\<lparr>events := events s @ [RasterLoad arrayBuffer]\<rparr> in
      case numPages eng arrayBuffer of
        None \<Rightarrow> showDialog ''Error'' (''Failed to load '' @ fileName) s0
      | Some n \<Rightarrow>
          (let doc = \<lparr> doc_id = nextDocId s0, name = fileName, pdfBytes = arrayBuffer,
                       pageCount = n, currentPage = 1, zoom = 1, selectedPages = [] \<rparr>;
               s1 = s0\<lparr>nextDocId := nextDocId s0 + 1, openDocs := openDocs s0 @ [doc]\<rparr>;
               s2 = s1\<lparr>activeDocIndex := int (length (openDocs s1)) - 1\<rparr>
           in enableToolbarButtons PDF_OPEN_BUTTONS s2))"

text \<open>
  \<open>switchToDocument\<close>: unknown id is a no-op; otherwise only \<open>activeDocIndex\<close> is
  assigned (the calls that follow repaint from the session and write no session field).
\<close>

definition switchToDocument :: "int \<Rightarrow> app \<Rightarrow> app" where
  "switchToDocument docId s =
     (let idx = findIndex (\<lambda>d. doc_id d = docId) (openDocs s) in
      if idx = -1 then s else s\<lparr>activeDocIndex := idx\<rparr>)"

definition closeDocument :: "int \<Rightarrow> app \<Rightarrow> app" where
  "closeDocument docId s =
     (let idx = findIndex (\<lambda>d. doc_id d = docId) (openDocs s) in
      if idx = -1 then s
      else
        (let s1 = s\<lparr>openDocs := splice1 idx (openDocs s)\<rparr> in
         if length (openDocs s1) = 0 then
           disableToolbarButtons PDF_CLOSE_BUTTONS (s1\<lparr>activeDocIndex := -1\<rparr>)
         else
           (let s2 = s1\<lparr>activeDocIndex := min idx (int (length (openDocs s1)) - 1)\<rparr>
            in switchToDocument (doc_id (openDocs s2 ! nat (activeDocIndex s2))) s2)))"

subsection \<open>Navigation\<close>

text \<open>\<open>goToPage\<close> clamps the page number to the document and scrolls there.\<close>

definition goToPage :: "int \<Rightarrow> app \<Rightarrow> app" where
  "goToPage p s =
     (case getActiveDoc s of
        None \<Rightarrow> s
      | Some doc \<Rightarrow> updateActiveDoc (\<lambda>d. d\<lparr>currentPage := max 1 (min (pageCount d) p)\<rparr>) s)"

subsection \<open>Zoom\<close>

text \<open>
  The argument of \<open>setZoom\<close>: the string \<open>'fit'\<close> or a value that \<open>parseFloat\<close> reads as a
  number. For \<open>'fit'\<close> the scale is computed from the viewport element's client size and the
  current page's size at scale 1, which the environment supplies. Each zoom operation
  assigns \<open>doc.zoom\<close>, repaints, and then scrolls back to the current page with
  \<open>goToPage\<close>; the promise callbacks are run in place.
\<close>

datatype zoomArg = Fit | ZoomValue real

record fitEnv =
  clientWidth :: real
  clientHeight :: real
  vpWidth :: real
  vpHeight :: real

definition fitScale :: "fitEnv \<Rightarrow> real" where
  "fitScale e = min ((clientWidth e - 40) / vpWidth e) ((clientHeight e - 40) / vpHeight e)"

definition setZoom :: "fitEnv \<Rightarrow> zoomArg \<Rightarrow> app \<Rightarrow> app" where
  "setZoom e z s =
     (case getActiveDoc s of
        None \<Rightarrow> s
      | Some doc \<Rightarrow>
          (case z of
             Fit \<Rightarrow>
               goToPage (currentPage doc) (updateActiveDoc (\<lambda>d. d\<lparr>zoom := fitScale e\<rparr>) s)
           | ZoomValue v \<Rightarrow>
               goToPage (currentPage doc) (updateActiveDoc (\<lambda>d. d\<lparr>zoom := v\<rparr>) s)))"

definition zoomIn :: "app \<Rightarrow> app" where
  "zoomIn s =
     (case getActiveDoc s of
        None \<Rightarrow> s
      | Some doc \<Rightarrow>
          goToPage (currentPage doc)
            (updateActiveDoc (\<lambda>d. d\<lparr>zoom := min 4 (zoom d + 0.25)\<rparr>) s))"

definition zoomOut :: "app \<Rightarrow> app" where
  "zoomOut s =
     (case getActiveDoc s of
        None \<Rightarrow> s
      | Some doc \<Rightarrow>
          goToPage (currentPage doc)
            (updateActiveDoc (\<lambda>d. d\<lparr>zoom := max 0.25 (zoom d - 0.25)\<rparr>) s))"

subsection \<open>Selection and refresh after an edit\<close>

text \<open>
  The click handler of a thumbnail: with Ctrl or Meta held the page is toggled in the
  selection, otherwise the selection is cleared and the page becomes current.
\<close>

definition thumbnailClick :: "bool \<Rightarrow> int \<Rightarrow> app \<Rightarrow> app" where
  "thumbnailClick ctrlKey p s =
     (case getActiveDoc s of
        None \<Rightarrow> s
      | Some doc \<Rightarrow>
          (if ctrlKey then
             (if p \<in> set (selectedPages doc)
              then updateActiveDoc (\<lambda>d. d\<lparr>selectedPages := removeAll p (selectedPages d)\<rparr>) s
              else updateActiveDoc (\<lambda>d. d\<lparr>selectedPages := selectedPages d @ [p]\<rparr>) s)
           else goToPage p (updateActiveDoc (\<lambda>d. d\<lparr>selectedPages := []\<rparr>) s)))"

definition getSelectedPages :: "app \<Rightarrow> int list" where
  "getSelectedPages s =
     (case getActiveDoc s of None \<Rightarrow> [] | Some doc \<Rightarrow> sort (selectedPages doc))"

text \<open>
  An \<open>async\<close> function either runs to its end or rejects; in both cases the writes it made
  stay. \<open>Thrown\<close> carries the state at the point of the exception.
\<close>

datatype 'a outcome = Done 'a | Thrown 'a

fun stateOf :: "'a outcome \<Rightarrow> 'a" where
  "stateOf (Done s) = s"
| "stateOf (Thrown s) = s"

text \<open>
  \<open>refreshDocument(pdfBytes, keepPage)\<close>: \<open>keepPage || doc.currentPage\<close> takes the
  session's page when \<open>keepPage\<close> is missing or 0. The rasterizer decodes the new bytes
  before any field is written, so a rejection leaves the session as it was.
\<close>

definition refreshDocument :: "engine \<Rightarrow> bytes \<Rightarrow> int option \<Rightarrow> app \<Rightarrow> app outcome" where
  "refreshDocument eng newBytes keepPage s =
     (case getActiveDoc s of
        None \<Rightarrow> Done s
      | Some doc \<Rightarrow>
          (let cur = (case keepPage of
                        None \<Rightarrow> currentPage doc
                      | Some k \<Rightarrow> if k = 0 then currentPage doc else k);
               s0 = s\<lparr>events := events s @ [RasterLoad newBytes]\<rparr>
           in case numPages eng newBytes of
                None \<Rightarrow> Thrown s0
              | Some n \<Rightarrow>
                  (let s1 = updateActiveDoc
                              (\<lambda>d. d\<lparr>pdfBytes := newBytes, pageCount := n,
                                     currentPage := min cur n, selectedPages := []\<rparr>) s0
                   in Done (goToPage (min cur n) s1))))"

section \<open>Text boxes, page deletion, undo and redo (pdf-editor.js)\<close>

definition MAX_UNDO :: nat where
  "MAX_UNDO = 50"

definition updateUndoButtons :: "app \<Rightarrow> app" where
  "updateUndoButtons s =
     (let s1 = (if length (undoStack s) > 0 then enableToolbarButtons [''tb-undo''] s
                else disableToolbarButtons [''tb-undo''] s)
      in if length (redoStack s1) > 0 then enableToolbarButtons [''tb-redo''] s1
         else disableToolbarButtons [''tb-redo''] s1)"

definition pushUndo :: "undoAction \<Rightarrow> app \<Rightarrow> app" where
  "pushUndo action s =
     (let st = undoStack s @ [action];
          st1 = (if length st > MAX_UNDO then tl st else st)
      in updateUndoButtons (s\<lparr>undoStack := st1, redoStack := []\<rparr>))"

definition createTextBox :: "int \<Rightarrow> real \<Rightarrow> real \<Rightarrow> string \<Rightarrow> real \<Rightarrow> app \<Rightarrow> textBox \<times> app" where
  "createTextBox pn px py str fs s =
     (let b = \<lparr> box_id = nextBoxId s, box_pageNum = pn, box_x = px, box_y = py,
                 box_width = 150, box_height = 24, box_text = str, box_fontSize = fs,
                 box_fontFamily = ''Helvetica'' \<rparr>;
          s1 = s\<lparr>nextBoxId := nextBoxId s + 1, textBoxes := textBoxes s @ [b]\<rparr>
      in (b, pushUndo (AddText b) s1))"

text \<open>
  \<open>undo\<close>: the popped action goes to the redo stack; the previous bytes are restored
  for the types \<open>'delete'\<close> and \<open>'reorder'\<close> (the test \<open>if (action.prevBytes)\<close> holds for
  every byte payload, an object), the text box is removed for \<open>'add-text'\<close>, and no branch
  handles any other type. \<open>redo\<close> puts a text box back and re-executes nothing else.
\<close>

definition undo :: "engine \<Rightarrow> app \<Rightarrow> app outcome" where
  "undo eng s =
     (if length (undoStack s) = 0 then Done s
      else
        (let action = last (undoStack s);
             s1 = s\<lparr>undoStack := butlast (undoStack s), redoStack := redoStack s @ [action]\<rparr>
         in case action of
              Snapshot ty prev \<Rightarrow>
                (if ty = Delete \<or> ty = Reorder then
                   (case refreshDocument eng prev None s1 of
                      Done t \<Rightarrow> Done (updateUndoButtons t)
                    | Thrown t \<Rightarrow> Thrown t)
                 else Done (updateUndoButtons s1))
            | AddText b \<Rightarrow>
                Done (updateUndoButtons
                  (s1\<lparr>textBoxes := filter (\<lambda>t. box_id t \<noteq> box_id b) (textBoxes s1)\<rparr>))))"

definition redo :: "app \<Rightarrow> app" where
  "redo s =
     (if length (redoStack s) = 0 then s
      else
        (let action = last (redoStack s);
             s1 = s\<lparr>redoStack := butlast (redoStack s), undoStack := undoStack s @ [action]\<rparr>
         in case action of
              AddText b \<Rightarrow> updateUndoButtons (s1\<lparr>textBoxes := textBoxes s1 @ [b]\<rparr>)
            | Snapshot ty prev \<Rightarrow> updateUndoButtons s1))"



text \<open>
  \<open>deletePages\<close>: an empty argument stands for the current page; a request for as many
  pages as the document has, or more, is answered with a dialog before the engine is
  touched. Otherwise the pages are removed from the highest number down, an action with
  the session's bytes is pushed, and the session is refreshed with the new bytes; any
  exception ends in the \<open>catch\<close> block's dialog.
\<close>

definition deletePages :: "engine \<Rightarrow> int list \<Rightarrow> app \<Rightarrow> app" where
  "deletePages eng pageNums s =
     (case getActiveDoc s of
        None \<Rightarrow> s
      | Some doc \<Rightarrow>
          (let pageNums1 = (if length pageNums = 0 then [currentPage doc] else pageNums) in
           if int (length pageNums1) \<ge> pageCount doc then
             showDialog ''Warning'' ''Cannot delete all pages.'' s
           else
             (let s0 = s\<lparr>events := events s @ [EngineLoad (pdfBytes doc)]\<rparr> in
              case removePages eng (pdfBytes doc) (rev (sort pageNums1)) of
                None \<Rightarrow> showDialog ''Error'' ''Failed to delete pages.'' s0
              | Some newBytes \<Rightarrow>
                  (let s1 = s0\<lparr>events := events s0 @ [EngineSave newBytes]\<rparr> in
                   case refreshDocument eng newBytes None
                          (pushUndo (Snapshot Delete (pdfBytes doc)) s1) of
                     Done t \<Rightarrow> t
                   | Thrown t \<Rightarrow> showDialog ''Error'' ''Failed to delete pages.'' t))))"

text \<open>
  \<open>deletePage\<close> of the main application: the selection, or the current page when nothing
  is selected, goes to \<open>deletePages\<close> once the user confirms (\<open>confirmed\<close> is the button
  the user presses in the confirmation dialog).
\<close>

definition deletePage :: "engine \<Rightarrow> bool \<Rightarrow> app \<Rightarrow> app" where
  "deletePage eng confirmed s =
     (case getActiveDoc s of
        None \<Rightarrow> s
      | Some doc \<Rightarrow>
          (let selected = getSelectedPages s;
               pages = (if length selected > 0 then selected else [currentPage doc]) in
           if int (length pages) \<ge> pageCount doc then
             showDialog ''Warning'' ''Cannot delete all pages.'' s
           else
             (let s0 = s\<lparr>events := events s @ [AskDelete (int (length pages))]\<rparr> in
              if confirmed then deletePages eng pages s0 else s0)))"

section \<open>Marks and their commit (pdf-redact.js, PDFAnnotate)\<close>

text \<open>
  Marks are held in screen space. \<open>getPages()\<close> of the engine is the list of the pages'
  heights, the one member of \<open>getSize()\<close> the commit reads. \<open>pages[n - 1]\<close> is
  \<open>undefined\<close> outside the array, and the loops skip such marks.
\<close>

record redactRect =
  r_pageNum :: int
  r_x :: real
  r_y :: real
  r_w :: real
  r_h :: real
  r_color :: string


text \<open>The options object handed to the engine's \<open>drawRectangle\<close>, and the engine calls.\<close>

record rectOptions =
  o_x :: real
  o_y :: real
  o_width :: real
  o_height :: real
  o_color :: "real \<times> real \<times> real"
  o_opacity :: "real option"

datatype drawCall =
    DrawRectangle rectOptions
  | DrawLine "real \<times> real" "real \<times> real" real "real \<times> real \<times> real"
  | DrawText string "real \<times> real" real

definition pageAt :: "'a list \<Rightarrow> int \<Rightarrow> 'a option" where
  "pageAt pages n =
     (if 1 \<le> n \<and> n \<le> int (length pages) then Some (pages ! nat (n - 1)) else None)"

text \<open>
  \<open>onMouseUp\<close> of the redact overlay: the drag from \<open>drawStart\<close> to the pointer
  becomes a rectangle unless it is smaller than 5 pixels in either direction or the
  overlay's page number parses to 0.
\<close>

definition onMouseUp ::
  "real \<times> real \<times> int \<Rightarrow> real \<times> real \<Rightarrow> string \<Rightarrow> redactRect list \<Rightarrow> redactRect list" where
  "onMouseUp drawStart pointer currentColor redactRects =
     (case drawStart of (sx, sy, pn) \<Rightarrow>
      case pointer of (mx, my) \<Rightarrow>
        (let left = min sx mx; top = min sy my;
             w = \<bar>mx - sx\<bar>; h = \<bar>my - sy\<bar> in
         if w < 5 \<or> h < 5 then redactRects
         else if pn = 0 then redactRects
         else redactRects @
                [\<lparr> r_pageNum = pn, r_x = left, r_y = top, r_w = w, r_h = h,
                   r_color = currentColor \<rparr>]))"

text \<open>
  The loop of \<open>applyRedactions\<close> over \<open>redactRects\<close>: the engine calls it makes, each
  with the number of the page it draws on.
\<close>

fun drawRedactions :: "real \<Rightarrow> real list \<Rightarrow> redactRect list \<Rightarrow> (int \<times> drawCall) list" where
  "drawRedactions zm pages [] = []"
| "drawRedactions zm pages (r # rs) =
     (case pageAt pages (r_pageNum r) of
        None \<Rightarrow> drawRedactions zm pages rs
      | Some height \<Rightarrow>
          (r_pageNum r,
           DrawRectangle
             \<lparr> o_x = r_x r / zm,
               o_y = height - (r_y r / zm) - (r_h r / zm),
               o_width = r_w r / zm,
               o_height = r_h r / zm,
               o_color = (if r_color r = ''white'' then (1, 1, 1) else (0, 0, 0)),
               o_opacity = None \<rparr>)
          # drawRedactions zm pages rs)"

text \<open>
  \<open>applyRedactions\<close> up to the engine's \<open>save\<close>: nothing happens without an active
  session or without rectangles; otherwise the loop runs with the session's zoom as it is
  at that moment, on the pages of the document the engine loaded.
\<close>

definition applyRedactions :: "app \<Rightarrow> real list \<Rightarrow> redactRect list \<Rightarrow> (int \<times> drawCall) list" where
  "applyRedactions s pages redactRects =
     (case getActiveDoc s of
        None \<Rightarrow> []
      | Some doc \<Rightarrow>
          if length redactRects = 0 then [] else drawRedactions (zoom doc) pages redactRects)"









text \<open>The rectangles among a list of engine calls, as (page, (x, y, width, height)).\<close>

fun drawnRectangles :: "(int \<times> drawCall) list \<Rightarrow> (int \<times> real \<times> real \<times> real \<times> real) list" where
  "drawnRectangles [] = []"
| "drawnRectangles ((n, DrawRectangle opts) # cs) =
     (n, o_x opts, o_y opts, o_width opts, o_height opts) # drawnRectangles cs"
| "drawnRectangles ((n, DrawLine p q t c) # cs) = drawnRectangles cs"
| "drawnRectangles ((n, DrawText str p sz) # cs) = drawnRectangles cs"


section \<open>Sequences of operations, invariants and sample states\<close>

datatype zoomOp = ZoomIn | ZoomOut | SetZoom fitEnv zoomArg

fun applyZoomOp :: "app \<Rightarrow> zoomOp \<Rightarrow> app" where
  "applyZoomOp s ZoomIn = zoomIn s"
| "applyZoomOp s ZoomOut = zoomOut s"
| "applyZoomOp s (SetZoom e z) = setZoom e z s"

definition applyZoomOps :: "zoomOp list \<Rightarrow> app \<Rightarrow> app" where
  "applyZoomOps ops s = foldl applyZoomOp s ops"

definition zoomInRange :: "real \<Rightarrow> bool" where
  "zoomInRange z \<longleftrightarrow> 0.25 \<le> z \<and> z \<le> 4"

definition allZoomsInRange :: "app \<Rightarrow> bool" where
  "allZoomsInRange s \<longleftrightarrow> list_all (\<lambda>d. zoomInRange (zoom d)) (openDocs s)"

definition pushAll :: "undoAction list \<Rightarrow> app \<Rightarrow> app" where
  "pushAll actions s = foldl (\<lambda>t a. pushUndo a t) s actions"

text \<open>
  Session ids come from the counter \<open>nextDocId\<close>, so no two open sessions share one, and
  box ids from \<open>nextBoxId\<close>.
\<close>

definition idsDistinct :: "app \<Rightarrow> bool" where
  "idsDistinct s \<longleftrightarrow> distinct (map doc_id (openDocs s))"

definition idsIssued :: "app \<Rightarrow> bool" where
  "idsIssued s \<longleftrightarrow> idsDistinct s \<and> list_all (\<lambda>d. doc_id d < nextDocId s) (openDocs s)"

definition boxIdsIssued :: "app \<Rightarrow> bool" where
  "boxIdsIssued s \<longleftrightarrow> list_all (\<lambda>t. box_id t < nextBoxId s) (textBoxes s)"

text \<open>
  A sample engine (every document has three pages; removing pages appends their count to
  the bytes) and the workspaces reached by opening one and three files.
\<close>

definition demoEngine :: engine where
  "demoEngine = \<lparr> numPages = (\<lambda>b. Some 3),
                   removePages = (\<lambda>b ps. Some (b @ [of_nat (length ps)])) \<rparr>"

definition oneDocApp :: app where
  "oneDocApp = loadPDF demoEngine [1] ''a.pdf'' initialApp"

definition demoApp :: app where
  "demoApp = loadPDF demoEngine [3] ''c.pdf''
     (loadPDF demoEngine [2] ''b.pdf'' (loadPDF demoEngine [1] ''a.pdf'' initialApp))"

text \<open>The third session zoomed in, on page 3, with page 2 selected.\<close>

definition busyApp :: app where
  "busyApp = thumbnailClick True 2 (goToPage 3 (zoomIn demoApp))"

text \<open>The single session with all three pages selected.\<close>

definition selApp :: app where
  "selApp = thumbnailClick True 3 (thumbnailClick True 2 (thumbnailClick True 1 oneDocApp))"

text \<open>\<open>n\<close> different actions.\<close>

definition sampleActions :: "nat \<Rightarrow> undoAction list" where
  "sampleActions n = map (\<lambda>i. Snapshot Delete (replicate i 0)) [0..<n]"

text \<open>A viewport of 840 by 640 pixels showing a page of 2400 by 3000 points.\<close>

definition largePageEnv :: fitEnv where
  "largePageEnv = \<lparr> clientWidth = 840, clientHeight = 640, vpWidth = 2400, vpHeight = 3000 \<rparr>"

text \<open>An engine whose documents have a single page, and one such document open.\<close>

definition onePageEngine :: engine where
  "onePageEngine = \<lparr> numPages = (\<lambda>b. Some 1),
                      removePages = (\<lambda>b ps. Some (b @ [of_nat (length ps)])) \<rparr>"

definition onePageApp :: app where
  "onePageApp = loadPDF onePageEngine [1] ''a.pdf'' initialApp"

text \<open>A viewport of 1040 by 840 pixels showing a page of 100 by 100 points.\<close>

definition smallPageEnv :: fitEnv where
  "smallPageEnv = \<lparr> clientWidth = 1040, clientHeight = 840, vpWidth = 100, vpHeight = 100 \<rparr>"

section \<open>Properties: auxiliary facts\<close>

subsection \<open>Searching and splicing the list of sessions\<close>

lemma findIndex_ge: "- 1 \<le> findIndex P xs"
  by (induction xs) (auto simp: Let_def)

lemma findIndex_none: "findIndex P xs = - 1 \<longleftrightarrow> (\<forall>d \<in> set xs. \<not> P d)"
proof (induction xs)
  case Nil show ?case by simp
next
  case (Cons d ds)
  have "- 1 \<le> findIndex P ds" by (rule findIndex_ge)
  with Cons show ?case by (auto simp: Let_def)
qed

lemma findIndex_found:
  "findIndex P xs \<noteq> - 1 \<Longrightarrow>
     0 \<le> findIndex P xs \<and> findIndex P xs < int (length xs) \<and> P (xs ! nat (findIndex P xs))"
proof (induction xs)
  case Nil then show ?case by simp
next
  case (Cons d ds)
  show ?case
  proof (cases "P d")
    case True then show ?thesis by simp
  next
    case False
    with Cons.prems have ne: "findIndex P ds \<noteq> - 1" by (auto simp: Let_def split: if_splits)
    from Cons.IH [OF ne] False ne show ?thesis
      by (auto simp: Let_def nat_add_distrib)
  qed
qed

lemma findIndex_key:
  "distinct (map f xs) \<Longrightarrow> k < length xs \<Longrightarrow> findIndex (\<lambda>d. f d = f (xs ! k)) xs = int k"
proof (induction xs arbitrary: k)
  case Nil then show ?case by simp
next
  case (Cons d ds)
  show ?case
  proof (cases k)
    case 0 then show ?thesis by simp
  next
    case (Suc j)
    with Cons.prems have j: "j < length ds" and dd: "distinct (map f ds)" and nd: "f d \<notin> f ` set ds"
      by auto
    from j nd have "f d \<noteq> f (ds ! j)" by (metis imageI nth_mem)
    with Cons.IH [OF dd j] Suc show ?thesis by (simp add: Let_def)
  qed
qed


lemma splice1_length:
  "0 \<le> idx \<Longrightarrow> idx < int (length xs) \<Longrightarrow> length (splice1 idx xs) = length xs - 1"
  by (auto simp: splice1_def)

lemma splice1_nth:
  "0 \<le> idx \<Longrightarrow> idx < int (length xs) \<Longrightarrow> j < length xs - 1 \<Longrightarrow>
     splice1 idx xs ! j = (if j < nat idx then xs ! j else xs ! Suc j)"
  by (auto simp: splice1_def nth_append min_def)

lemma splice1_distinct:
  "distinct (map f xs) \<Longrightarrow> distinct (map f (splice1 idx xs))"
proof -
  assume d: "distinct (map f xs)"
  have "map f xs = map f (take (nat idx) xs) @ map f (drop (nat idx) xs)"
    by (metis append_take_drop_id map_append)
  with d have 1: "distinct (map f (take (nat idx) xs) @ map f (drop (nat idx) xs))" by simp
  have "set (drop (nat idx + 1) xs) \<subseteq> set (drop (nat idx) xs)"
    by (metis Suc_eq_plus1 drop_Suc set_drop_subset tl_drop drop_drop add.commute)
  moreover have "distinct (map f (drop (nat idx + 1) xs))"
    using d by (simp add: distinct_drop flip: drop_map)
  ultimately show ?thesis using 1 unfolding splice1_def by (auto)
qed

lemma closeDocument_nonempty:
  assumes d: "distinct (map doc_id (openDocs s))"
    and idx: "findIndex (\<lambda>d. doc_id d = docId) (openDocs s) = idx" "idx \<noteq> - 1"
    and len: "length (openDocs s) > 1"
  shows "closeDocument docId s =
     s\<lparr>openDocs := splice1 idx (openDocs s),
       activeDocIndex := min idx (int (length (openDocs s)) - 2)\<rparr>"
proof -
  let ?ds = "splice1 idx (openDocs s)"
  from findIndex_found idx have r: "0 \<le> idx" "idx < int (length (openDocs s))" by blast+
  have l: "length ?ds = length (openDocs s) - 1" using r by (rule splice1_length)
  let ?a = "min idx (int (length ?ds) - 1)"
  have a: "0 \<le> ?a" "nat ?a < length ?ds" using r l len by auto
  have dd: "distinct (map doc_id ?ds)" using d by (rule splice1_distinct)
  have f: "findIndex (\<lambda>d. doc_id d = doc_id (?ds ! nat ?a)) ?ds = ?a"
    using findIndex_key [OF dd a(2)] a(1) by simp
  have ne: "?a \<noteq> - 1" using a(1) by linarith
  have l2: "int (length ?ds) - 1 = int (length (openDocs s)) - 2" using l len by auto
  show ?thesis
    unfolding closeDocument_def Let_def idx(1) switchToDocument_def
    using idx(2) l len f ne l2 by (simp)
qed



lemma switchToDocument_member:
  fixes t :: app
  assumes dt: "distinct (map doc_id (openDocs t))" and e: "e \<in> set (openDocs t)"
  shows "getActiveDoc (switchToDocument (doc_id e) t) = Some e \<and>
     openDocs (switchToDocument (doc_id e) t) = openDocs t"
proof -
  from e obtain k where k: "k < length (openDocs t)" "openDocs t ! k = e"
    by (auto simp: in_set_conv_nth)
  from findIndex_key [OF dt k(1)] k(2)
  have "findIndex (\<lambda>d. doc_id d = doc_id e) (openDocs t) = int k" by simp
  with k show ?thesis
    by (simp add: switchToDocument_def getActiveDoc_def)
qed

text \<open>
  The ids of the open sessions are distinct in every workspace reached from the empty one
  by opening, switching and closing.
\<close>

lemma idsIssued_initialApp: "idsIssued initialApp"
  by (simp add: idsIssued_def idsDistinct_def initialApp_def)

lemma idsIssued_loadPDF:
  assumes "idsIssued s"
  shows "idsIssued (loadPDF eng b n s)"
proof (cases "numPages eng b")
  case None
  with assms show ?thesis
    by (simp add: loadPDF_def idsIssued_def idsDistinct_def showDialog_def Let_def)
next
  case (Some k)
  from assms have "nextDocId s \<notin> doc_id ` set (openDocs s)"
    by (auto simp: idsIssued_def list_all_iff)
  with assms Some show ?thesis
    by (auto simp: loadPDF_def idsIssued_def idsDistinct_def enableToolbarButtons_def Let_def
        list_all_iff)
qed

lemma idsIssued_switchToDocument:
  "idsIssued s \<Longrightarrow> idsIssued (switchToDocument docId s)"
  by (simp add: switchToDocument_def idsIssued_def idsDistinct_def Let_def)

lemma closeDocument_openDocs:
  "openDocs (closeDocument docId s) =
     (if findIndex (\<lambda>d. doc_id d = docId) (openDocs s) = - 1 then openDocs s
      else splice1 (findIndex (\<lambda>d. doc_id d = docId) (openDocs s)) (openDocs s))"
  by (simp add: closeDocument_def switchToDocument_def disableToolbarButtons_def Let_def)

lemma closeDocument_nextDocId: "nextDocId (closeDocument docId s) = nextDocId s"
  by (simp add: closeDocument_def switchToDocument_def disableToolbarButtons_def Let_def)

lemma idsIssued_closeDocument:
  assumes "idsIssued s"
  shows "idsIssued (closeDocument docId s)"
proof (cases "findIndex (\<lambda>d. doc_id d = docId) (openDocs s) = - 1")
  case True
  with assms show ?thesis
    by (simp add: idsIssued_def idsDistinct_def closeDocument_openDocs closeDocument_nextDocId)
next
  case False
  let ?ds = "splice1 (findIndex (\<lambda>d. doc_id d = docId) (openDocs s)) (openDocs s)"
  have "set ?ds \<subseteq> set (openDocs s)"
    unfolding splice1_def by (auto dest: in_set_takeD in_set_dropD)
  with assms have "list_all (\<lambda>d. doc_id d < nextDocId s) ?ds"
    by (auto simp: idsIssued_def list_all_iff)
  moreover have "distinct (map doc_id ?ds)"
    using assms by (simp add: idsIssued_def idsDistinct_def splice1_distinct)
  ultimately show ?thesis using False
    by (simp add: idsIssued_def idsDistinct_def closeDocument_openDocs closeDocument_nextDocId)
qed

subsection \<open>Zoom steps keep the interval\<close>

lemma updateActiveDoc_zooms:
  assumes "allZoomsInRange s" "zoomInRange (zoom (f (openDocs s ! nat (activeDocIndex s))))"
  shows "allZoomsInRange (updateActiveDoc f s)"
proof -
  have "set ((openDocs s)[nat (activeDocIndex s) := f (openDocs s ! nat (activeDocIndex s))])
      \<subseteq> insert (f (openDocs s ! nat (activeDocIndex s))) (set (openDocs s))"
    by (rule set_update_subset_insert)
  with assms show ?thesis
    by (auto simp: allZoomsInRange_def updateActiveDoc_def list_all_iff)
qed

lemma getActiveDoc_zoom:
  "allZoomsInRange s \<Longrightarrow> getActiveDoc s = Some d \<Longrightarrow>
     d = openDocs s ! nat (activeDocIndex s) \<and> zoomInRange (zoom d)"
  by (auto simp: getActiveDoc_def allZoomsInRange_def list_all_length split: if_splits)

lemma goToPage_zooms:
  assumes "allZoomsInRange s"
  shows "allZoomsInRange (goToPage p s)"
proof (cases "getActiveDoc s")
  case None then show ?thesis using assms by (simp add: goToPage_def)
next
  case (Some d)
  from getActiveDoc_zoom [OF assms Some]
  have "zoomInRange (zoom ((openDocs s ! nat (activeDocIndex s))
          \<lparr>currentPage := max 1 (min (pageCount (openDocs s ! nat (activeDocIndex s))) p)\<rparr>))"
    by auto
  with Some assms show ?thesis by (simp add: goToPage_def updateActiveDoc_zooms)
qed

lemma zoomIn_keeps_range:
  assumes "allZoomsInRange s"
  shows "allZoomsInRange (zoomIn s)"
proof (cases "getActiveDoc s")
  case None with assms show ?thesis by (simp add: zoomIn_def)
next
  case (Some d)
  from getActiveDoc_zoom [OF assms Some]
  have "zoomInRange (min 4 (zoom (openDocs s ! nat (activeDocIndex s)) + 0.25))"
    by (auto simp: zoomInRange_def min_def)
  with Some assms show ?thesis
    by (simp add: zoomIn_def updateActiveDoc_zooms goToPage_zooms)
qed

lemma zoomOut_keeps_range:
  assumes "allZoomsInRange s"
  shows "allZoomsInRange (zoomOut s)"
proof (cases "getActiveDoc s")
  case None with assms show ?thesis by (simp add: zoomOut_def)
next
  case (Some d)
  from getActiveDoc_zoom [OF assms Some]
  have "zoomInRange (max 0.25 (zoom (openDocs s ! nat (activeDocIndex s)) - 0.25))"
    by (auto simp: zoomInRange_def max_def)
  with Some assms show ?thesis
    by (simp add: zoomOut_def updateActiveDoc_zooms goToPage_zooms)
qed

subsection \<open>The undo stack\<close>

lemma updateUndoButtons_fields [simp]:
  "undoStack (updateUndoButtons s) = undoStack s"
  "redoStack (updateUndoButtons s) = redoStack s"
  "textBoxes (updateUndoButtons s) = textBoxes s"
  "openDocs (updateUndoButtons s) = openDocs s"
  "activeDocIndex (updateUndoButtons s) = activeDocIndex s"
  "events (updateUndoButtons s) = events s"
  "nextBoxId (updateUndoButtons s) = nextBoxId s"
  by (simp_all add: updateUndoButtons_def enableToolbarButtons_def disableToolbarButtons_def Let_def)

lemma getActiveDoc_updateUndoButtons [simp]:
  "getActiveDoc (updateUndoButtons s) = getActiveDoc s"
  by (simp add: getActiveDoc_def)

lemma pushUndo_fields [simp]:
  "redoStack (pushUndo a s) = []"
  "textBoxes (pushUndo a s) = textBoxes s"
  "openDocs (pushUndo a s) = openDocs s"
  "activeDocIndex (pushUndo a s) = activeDocIndex s"
  "events (pushUndo a s) = events s"
  "nextBoxId (pushUndo a s) = nextBoxId s"
  by (simp_all add: pushUndo_def Let_def)

lemma pushUndo_stack:
  "undoStack (pushUndo a s) =
     (if length (undoStack s) \<ge> MAX_UNDO then tl (undoStack s @ [a]) else undoStack s @ [a])"
  by (auto simp: pushUndo_def Let_def)

lemma pushUndo_last:
  "undoStack (pushUndo a s) \<noteq> [] \<and> last (undoStack (pushUndo a s)) = a \<and>
   butlast (undoStack (pushUndo a s)) = 
     (if length (undoStack s) \<ge> MAX_UNDO then tl (undoStack s) else undoStack s)"
proof (cases "undoStack s")
  case Nil then show ?thesis by (simp add: pushUndo_stack MAX_UNDO_def)
next
  case (Cons u us)
  then show ?thesis by (simp add: pushUndo_stack butlast_append)
qed

lemma pushUndo_bound:
  "length (undoStack s) \<le> MAX_UNDO \<Longrightarrow> length (undoStack (pushUndo a s)) \<le> MAX_UNDO"
  by (auto simp: pushUndo_stack MAX_UNDO_def)

lemma pushAll_drop:
  "length (undoStack s) \<le> MAX_UNDO \<Longrightarrow>
     undoStack (foldl (\<lambda>t a. pushUndo a t) s acts) =
       drop (length (undoStack s @ acts) - MAX_UNDO) (undoStack s @ acts)"
proof (induction acts arbitrary: s)
  case Nil then show ?case by simp
next
  case (Cons a acts)
  have b: "length (undoStack (pushUndo a s)) \<le> MAX_UNDO" using Cons.prems by (rule pushUndo_bound)
  have ih: "undoStack (foldl (\<lambda>t a. pushUndo a t) (pushUndo a s) acts) =
      drop (length (undoStack (pushUndo a s) @ acts) - MAX_UNDO) (undoStack (pushUndo a s) @ acts)"
    using b by (rule Cons.IH)
  show ?case
  proof (cases "length (undoStack s) = MAX_UNDO")
    case True
    then obtain u us where u: "undoStack s = u # us" and l: "length us = 49"
      by (cases "undoStack s") (auto simp: MAX_UNDO_def)
    have p: "undoStack (pushUndo a s) = us @ [a]" using u l by (simp add: pushUndo_stack MAX_UNDO_def)
    have "length (undoStack s @ a # acts) - MAX_UNDO = Suc (length acts)"
      using u l by (simp add: MAX_UNDO_def)
    moreover have "length (undoStack (pushUndo a s) @ acts) - MAX_UNDO = length acts"
      using p l by (simp add: MAX_UNDO_def)
    ultimately show ?thesis using ih p u by simp
  next
    case False
    with Cons.prems have p: "undoStack (pushUndo a s) = undoStack s @ [a]"
      by (simp add: pushUndo_stack)
    with ih show ?thesis by simp
  qed
qed

lemma pushAll_redo:
  "acts \<noteq> [] \<Longrightarrow> redoStack (foldl (\<lambda>t a. pushUndo a t) s acts) = []"
  by (induction acts arbitrary: s rule: rev_induct) simp_all

lemma undo_redo_AddText:
  assumes "undoStack s \<noteq> []" "last (undoStack s) = AddText b"
  shows "textBoxes (stateOf (undo eng s)) = filter (\<lambda>t. box_id t \<noteq> box_id b) (textBoxes s)"
    and "textBoxes (redo (stateOf (undo eng s))) = filter (\<lambda>t. box_id t \<noteq> box_id b) (textBoxes s) @ [b]"
    and "undoStack (redo (stateOf (undo eng s))) = undoStack s"
    and "redoStack (redo (stateOf (undo eng s))) = redoStack s"
  using assms append_butlast_last_id [OF assms(1)] by (simp_all add: undo_def redo_def Let_def)

subsection \<open>Drawn rectangles\<close>





subsection \<open>The sample states\<close>

lemma oneDocApp_eq:
  "oneDocApp = \<lparr> openDocs = [\<lparr> doc_id = 1, name = ''a.pdf'', pdfBytes = [1], pageCount = 3,
        currentPage = 1, zoom = 1, selectedPages = [] \<rparr>], activeDocIndex = 0, nextDocId = 2,
     textBoxes = [], nextBoxId = 1, undoStack = [], redoStack = [],
     disabledButtons = {}, events = [RasterLoad [1]] \<rparr>"
  by (simp add: oneDocApp_def loadPDF_def demoEngine_def initialApp_def Let_def
      enableToolbarButtons_def)

lemma onePageApp_eq:
  "onePageApp = \<lparr> openDocs = [\<lparr> doc_id = 1, name = ''a.pdf'', pdfBytes = [1], pageCount = 1,
        currentPage = 1, zoom = 1, selectedPages = [] \<rparr>], activeDocIndex = 0, nextDocId = 2,
     textBoxes = [], nextBoxId = 1, undoStack = [], redoStack = [],
     disabledButtons = {}, events = [RasterLoad [1]] \<rparr>"
  by (simp add: onePageApp_def loadPDF_def onePageEngine_def initialApp_def Let_def
      enableToolbarButtons_def)

lemma demoApp_eq:
  "demoApp = \<lparr> openDocs =
       [\<lparr> doc_id = 1, name = ''a.pdf'', pdfBytes = [1], pageCount = 3,
          currentPage = 1, zoom = 1, selectedPages = [] \<rparr>,
        \<lparr> doc_id = 2, name = ''b.pdf'', pdfBytes = [2], pageCount = 3,
          currentPage = 1, zoom = 1, selectedPages = [] \<rparr>,
        \<lparr> doc_id = 3, name = ''c.pdf'', pdfBytes = [3], pageCount = 3,
          currentPage = 1, zoom = 1, selectedPages = [] \<rparr>],
     activeDocIndex = 2, nextDocId = 4,
     textBoxes = [], nextBoxId = 1, undoStack = [], redoStack = [],
     disabledButtons = {}, events = [RasterLoad [1], RasterLoad [2], RasterLoad [3]] \<rparr>"
  by (simp add: demoApp_def loadPDF_def demoEngine_def initialApp_def Let_def
      enableToolbarButtons_def)

lemma demoApp_close1:
  "openDocs (closeDocument 1 demoApp) = 
       [\<lparr> doc_id = 2, name = ''b.pdf'', pdfBytes = [2], pageCount = 3,
          currentPage = 1, zoom = 1, selectedPages = [] \<rparr>,
        \<lparr> doc_id = 3, name = ''c.pdf'', pdfBytes = [3], pageCount = 3,
          currentPage = 1, zoom = 1, selectedPages = [] \<rparr>]"
  "activeDocIndex (closeDocument 1 demoApp) = 0"
  by (simp_all add: demoApp_eq closeDocument_def switchToDocument_def splice1_def Let_def)

lemma demoApp_zooms: "allZoomsInRange demoApp"
  by (simp add: demoApp_def loadPDF_def demoEngine_def initialApp_def Let_def
      enableToolbarButtons_def allZoomsInRange_def zoomInRange_def)

lemma oneDocApp_zoom2:
  "getActiveDoc (setZoom e (ZoomValue 2) oneDocApp) =
     Some \<lparr> doc_id = 1, name = ''a.pdf'', pdfBytes = [1], pageCount = 3,
        currentPage = 1, zoom = 2, selectedPages = [] \<rparr>"
  by (simp add: oneDocApp_def loadPDF_def demoEngine_def initialApp_def Let_def
      enableToolbarButtons_def setZoom_def goToPage_def getActiveDoc_def updateActiveDoc_def)

lemma busyApp_eq:
  "busyApp = \<lparr> openDocs =
       [\<lparr> doc_id = 1, name = ''a.pdf'', pdfBytes = [1], pageCount = 3,
          currentPage = 1, zoom = 1, selectedPages = [] \<rparr>,
        \<lparr> doc_id = 2, name = ''b.pdf'', pdfBytes = [2], pageCount = 3,
          currentPage = 1, zoom = 1, selectedPages = [] \<rparr>,
        \<lparr> doc_id = 3, name = ''c.pdf'', pdfBytes = [3], pageCount = 3,
          currentPage = 3, zoom = 1.25, selectedPages = [2] \<rparr>],
     activeDocIndex = 2, nextDocId = 4,
     textBoxes = [], nextBoxId = 1, undoStack = [], redoStack = [],
     disabledButtons = {}, events = [RasterLoad [1], RasterLoad [2], RasterLoad [3]] \<rparr>"
  by (simp add: busyApp_def demoApp_eq thumbnailClick_def goToPage_def zoomIn_def
      getActiveDoc_def updateActiveDoc_def)

lemma selApp_eq:
  "selApp = \<lparr> openDocs = [\<lparr> doc_id = 1, name = ''a.pdf'', pdfBytes = [1], pageCount = 3,
        currentPage = 1, zoom = 1, selectedPages = [1, 2, 3] \<rparr>], activeDocIndex = 0, nextDocId = 2,
     textBoxes = [], nextBoxId = 1, undoStack = [], redoStack = [],
     disabledButtons = {}, events = [RasterLoad [1]] \<rparr>"
  by (simp add: selApp_def oneDocApp_eq thumbnailClick_def getActiveDoc_def updateActiveDoc_def)

lemma sampleActions_distinct: "distinct (sampleActions n)"
proof -
  have "inj_on (\<lambda>i. Snapshot Delete (replicate i (0::8 word))) (set [0..<n])"
    by (rule inj_onI) (metis undoAction.inject(2) length_replicate)
  then show ?thesis by (simp add: sampleActions_def distinct_map)
qed

subsection \<open>Refreshing the active session\<close>

lemma getActiveDoc_cong:
  "openDocs t = openDocs s \<Longrightarrow> activeDocIndex t = activeDocIndex s \<Longrightarrow>
     getActiveDoc t = getActiveDoc s"
  by (simp add: getActiveDoc_def)

lemma getActiveDoc_updateActiveDoc:
  "getActiveDoc s = Some doc \<Longrightarrow> getActiveDoc (updateActiveDoc f s) = Some (f doc)"
  by (auto simp: getActiveDoc_def updateActiveDoc_def split: if_splits)

lemma updateActiveDoc_fields [simp]:
  "undoStack (updateActiveDoc f s) = undoStack s"
  "redoStack (updateActiveDoc f s) = redoStack s"
  "activeDocIndex (updateActiveDoc f s) = activeDocIndex s"
  "events (updateActiveDoc f s) = events s"
  "textBoxes (updateActiveDoc f s) = textBoxes s"
  by (simp_all add: updateActiveDoc_def)

lemma goToPage_Some:
  "getActiveDoc s = Some doc \<Longrightarrow>
     goToPage p s = updateActiveDoc (\<lambda>d. d\<lparr>currentPage := max 1 (min (pageCount d) p)\<rparr>) s"
  by (simp add: goToPage_def)

lemma refreshDocument_Done:
  assumes "getActiveDoc s = Some doc" "numPages eng nb = Some n"
  shows "\<exists>t. refreshDocument eng nb kp s = Done t \<and>
           map_option pdfBytes (getActiveDoc t) = Some nb \<and>
           undoStack t = undoStack s \<and> redoStack t = redoStack s"
proof -
  define cur where "cur = (case kp of None \<Rightarrow> currentPage doc
                      | Some k \<Rightarrow> if k = 0 then currentPage doc else k)"
  define s0 where "s0 = s\<lparr>events := events s @ [RasterLoad nb]\<rparr>"
  define f where "f = (\<lambda>d::docSession. d\<lparr>pdfBytes := nb, pageCount := n,
                                     currentPage := min cur n, selectedPages := []\<rparr>)"
  define s1 where "s1 = updateActiveDoc f s0"
  have "getActiveDoc s0 = getActiveDoc s" by (rule getActiveDoc_cong) (simp_all add: s0_def)
  with assms(1) have g0: "getActiveDoc s0 = Some doc" by simp
  have g1: "getActiveDoc s1 = Some (f doc)" unfolding s1_def by (rule getActiveDoc_updateActiveDoc [OF g0])
  have r: "refreshDocument eng nb kp s = Done (goToPage (min cur n) s1)"
    using assms by (simp add: refreshDocument_def Let_def cur_def s0_def s1_def f_def)
  have g2: "getActiveDoc (goToPage (min cur n) s1) =
      Some ((f doc)\<lparr>currentPage := max 1 (min (pageCount (f doc)) (min cur n))\<rparr>)"
    unfolding goToPage_Some [OF g1] by (rule getActiveDoc_updateActiveDoc [OF g1])
  have u: "undoStack (goToPage (min cur n) s1) = undoStack s"
    "redoStack (goToPage (min cur n) s1) = redoStack s"
    unfolding goToPage_Some [OF g1] by (simp_all add: s1_def s0_def)
  show ?thesis unfolding r using g2 u by (simp add: f_def)
qed


text \<open>
  The path that works: when \<open>deletePages\<close> goes through (fewer pages than the document
  has, the engine removes them, the rasterizer decodes both payloads), the session holds
  the new bytes, and undo right afterwards puts the previous bytes back.
\<close>

lemma undo_after_deletePages_restores_bytes:
  assumes g: "getActiveDoc s = Some doc"
    and eff: "eff = (if length pageNums = 0 then [currentPage doc] else pageNums)"
    and small: "int (length eff) < pageCount doc"
    and rm: "removePages eng (pdfBytes doc) (rev (sort eff)) = Some newBytes"
    and nn: "numPages eng newBytes = Some m"
    and np: "numPages eng (pdfBytes doc) = Some n"
  shows "map_option pdfBytes (getActiveDoc (deletePages eng pageNums s)) = Some newBytes \<and>
         map_option pdfBytes (getActiveDoc (stateOf (undo eng (deletePages eng pageNums s))))
           = Some (pdfBytes doc)"
proof -
  let ?a = "Snapshot Delete (pdfBytes doc)"
  define s1 where "s1 = s\<lparr>events := events s @ [EngineLoad (pdfBytes doc)] @ [EngineSave newBytes]\<rparr>"
  have "getActiveDoc (pushUndo ?a s1) = getActiveDoc s"
    by (rule getActiveDoc_cong) (simp_all add: s1_def)
  with g have g0: "getActiveDoc (pushUndo ?a s1) = Some doc" by simp
  from refreshDocument_Done [OF g0 nn, of None] obtain t where
    t: "refreshDocument eng newBytes None (pushUndo ?a s1) = Done t"
      "map_option pdfBytes (getActiveDoc t) = Some newBytes"
      "undoStack t = undoStack (pushUndo ?a s1)" by blast
  have c: "deletePages eng pageNums s = t"
    using g small rm t(1) unfolding eff by (simp add: deletePages_def Let_def s1_def)
  from t(2) obtain d where d: "getActiveDoc t = Some d" by auto
  let ?t1 = "t\<lparr>undoStack := butlast (undoStack t), redoStack := redoStack t @ [?a]\<rparr>"
  have "getActiveDoc ?t1 = getActiveDoc t" by (rule getActiveDoc_cong) simp_all
  with d have g1: "getActiveDoc ?t1 = Some d" by simp
  from refreshDocument_Done [OF g1 np, of None] obtain u where
    u: "refreshDocument eng (pdfBytes doc) None ?t1 = Done u"
      "map_option pdfBytes (getActiveDoc u) = Some (pdfBytes doc)" by blast
  have top: "undoStack t \<noteq> []" "last (undoStack t) = ?a"
    unfolding t(3) using pushUndo_last by blast+
  have n: "length (undoStack t) \<noteq> 0" using top(1) by simp
  have "undo eng t = Done (updateUndoButtons u)"
    unfolding undo_def Let_def top(2) using n u(1) by simp
  with u(2) t(2) c show ?thesis by simp
qed

section \<open>Properties: the claims\<close>

subsection \<open>C1: undo after a structural commit\<close>


subsection \<open>C2: the zoom interval\<close>

text \<open>
  C2 states that the zoom factor of every session stays within [0.25, 4.0] under every
  sequence of \<open>zoomIn\<close>, \<open>zoomOut\<close> and \<open>setZoom\<close>. The steps clamp (lemmas
  \<open>zoomIn_keeps_range\<close>, \<open>zoomOut_keeps_range\<close>); \<open>setZoom\<close> does not. Starting from
  three sessions at zoom 1: fitting a 100 by 100 point page into a 1040 by 840 viewport
  sets the zoom to 8 (and a following zoom-in lowers it to 4); fitting a 2400 by 3000 point
  page into an 840 by 640 viewport sets it to 1/5 (and a following zoom-out raises it to
  1/4); the numeric value 5 sets it to 5.
\<close>

theorem setZoom_leaves_range:
  "allZoomsInRange demoApp \<and>
   map_option zoom (getActiveDoc (applyZoomOps [SetZoom smallPageEnv Fit] demoApp)) = Some 8 \<and>
   map_option zoom (getActiveDoc (applyZoomOps [SetZoom smallPageEnv (ZoomValue 5)] demoApp)) = Some 5 \<and>
   \<not> zoomInRange 8 \<and> \<not> zoomInRange 5 \<and>
   map_option zoom (getActiveDoc (applyZoomOps [SetZoom largePageEnv Fit] demoApp)) = Some (1 / 5) \<and>
   \<not> zoomInRange (1 / 5) \<and>
   map_option zoom (getActiveDoc (applyZoomOps [SetZoom smallPageEnv Fit, ZoomIn] demoApp)) = Some 4 \<and>
   map_option zoom (getActiveDoc (applyZoomOps [SetZoom largePageEnv Fit, ZoomOut] demoApp))
     = Some (1 / 4)"
proof -
  have 1: "map_option zoom (getActiveDoc (applyZoomOps [SetZoom smallPageEnv Fit] demoApp)) = Some 8"
    "map_option zoom (getActiveDoc (applyZoomOps [SetZoom smallPageEnv (ZoomValue 5)] demoApp)) = Some 5"
    by (simp_all add: applyZoomOps_def setZoom_def goToPage_def getActiveDoc_def
        updateActiveDoc_def fitScale_def smallPageEnv_def demoApp_eq)
  have 2: "map_option zoom (getActiveDoc (applyZoomOps [SetZoom largePageEnv Fit] demoApp))
      = Some (1 / 5)"
    by (simp add: applyZoomOps_def setZoom_def goToPage_def getActiveDoc_def
        updateActiveDoc_def fitScale_def largePageEnv_def demoApp_eq)
  have 3: "map_option zoom (getActiveDoc (applyZoomOps [SetZoom smallPageEnv Fit, ZoomIn] demoApp))
      = Some 4"
    by (simp add: applyZoomOps_def setZoom_def zoomIn_def goToPage_def getActiveDoc_def
        updateActiveDoc_def fitScale_def smallPageEnv_def demoApp_eq)
  have 4: "map_option zoom (getActiveDoc (applyZoomOps [SetZoom largePageEnv Fit, ZoomOut] demoApp))
      = Some (1 / 4)"
    by (simp add: applyZoomOps_def setZoom_def zoomOut_def goToPage_def getActiveDoc_def
        updateActiveDoc_def fitScale_def largePageEnv_def demoApp_eq)
  have 5: "\<not> zoomInRange 8" "\<not> zoomInRange 5" "\<not> zoomInRange (1 / 5)"
    by (simp_all add: zoomInRange_def)
  from demoApp_zooms 1 2 3 4 5 show ?thesis by blast
qed

subsection \<open>C3: the redaction scenario\<close>

text \<open>
  C3 expects the rectangle (50, pageHeight - 70, 25, 10) on page 2 for a drag from
  (100, 100) to (150, 120) on page 2 of a three-page document at zoom 2. For pages 792
  points high the code does not draw that rectangle.
\<close>

theorem redaction_scenario_not_70:
  "drawnRectangles (applyRedactions (setZoom smallPageEnv (ZoomValue 2) oneDocApp) [792, 792, 792]
       (onMouseUp (100, 100, 2) (150, 120) ''black'' []))
     \<noteq> [(2, 50, 792 - 70, 25, 10)]"
  by (simp add: applyRedactions_def oneDocApp_zoom2 onMouseUp_def pageAt_def)

text \<open>
  C3 as the code has it: with the session at zoom 2 and three pages of any heights, the
  drag from (100, 100) to (150, 120) on the overlay of page 2 is committed as exactly one
  rectangle, on page 2, equal to (50, pageHeight - 60, 25, 10).
\<close>

theorem redaction_scenario:
  "drawnRectangles (applyRedactions (setZoom e (ZoomValue 2) oneDocApp) [h1, h2, h3]
       (onMouseUp (100, 100, 2) (150, 120) ''black'' []))
     = [(2, 50, h2 - 60, 25, 10)]"
  by (simp add: applyRedactions_def oneDocApp_zoom2 onMouseUp_def pageAt_def)

subsection \<open>C4: the screen-to-document transform\<close>




subsection \<open>C5: closing a session\<close>



subsection \<open>C6: deleting all pages\<close>

text \<open>
  C6: with a session active, the pages a deletion is requested for are the argument of
  \<open>deletePages\<close>, or the current page when the argument is empty, and for \<open>deletePage\<close> the
  selection, or the current page when nothing is selected. Whenever these are at least
  \<open>pageCount\<close> pages (so also for the one page of a one-page document), only the warning
  dialog is shown: no engine or rasterizer call is added to the trace, and the sessions
  (page counts and bytes included) and the undo stack are unchanged.
\<close>

theorem delete_all_pages_rejected:
  assumes "getActiveDoc s = Some doc"
  shows "(int (length (if length pageNums = 0 then [currentPage doc] else pageNums))
              \<ge> pageCount doc \<longrightarrow>
            deletePages eng pageNums s = showDialog ''Warning'' ''Cannot delete all pages.'' s \<and>
            openDocs (deletePages eng pageNums s) = openDocs s \<and>
            undoStack (deletePages eng pageNums s) = undoStack s \<and>
            events (deletePages eng pageNums s) =
              events s @ [ShowDialog ''Warning'' ''Cannot delete all pages.'']) \<and>
         (int (length (if length (getSelectedPages s) > 0 then getSelectedPages s
                       else [currentPage doc])) \<ge> pageCount doc \<longrightarrow>
            deletePage eng confirmed s = showDialog ''Warning'' ''Cannot delete all pages.'' s \<and>
            openDocs (deletePage eng confirmed s) = openDocs s \<and>
            undoStack (deletePage eng confirmed s) = undoStack s \<and>
            events (deletePage eng confirmed s) =
              events s @ [ShowDialog ''Warning'' ''Cannot delete all pages.''])"
proof (intro conjI impI)
  assume a: "int (length (if length pageNums = 0 then [currentPage doc] else pageNums))
     \<ge> pageCount doc"
  show 1: "deletePages eng pageNums s = showDialog ''Warning'' ''Cannot delete all pages.'' s"
  proof (cases "pageNums = []")
    case True
    with a have "pageCount doc \<le> 1" by simp
    with True assms show ?thesis by (simp add: deletePages_def Let_def)
  next
    case False
    with a have "pageCount doc \<le> int (length pageNums)" by simp
    with False assms show ?thesis by (simp add: deletePages_def Let_def)
  qed
  show "openDocs (deletePages eng pageNums s) = openDocs s"
    "undoStack (deletePages eng pageNums s) = undoStack s"
    "events (deletePages eng pageNums s) = events s @ [ShowDialog ''Warning'' ''Cannot delete all pages.'']"
    unfolding 1 by (simp_all add: showDialog_def)
next
  assume a: "int (length (if length (getSelectedPages s) > 0 then getSelectedPages s
                       else [currentPage doc])) \<ge> pageCount doc"
  show 1: "deletePage eng confirmed s = showDialog ''Warning'' ''Cannot delete all pages.'' s"
  proof (cases "getSelectedPages s = []")
    case True
    with a have "pageCount doc \<le> 1" by simp
    with True assms show ?thesis by (simp add: deletePage_def Let_def)
  next
    case False
    with a have "pageCount doc \<le> int (length (getSelectedPages s))" by simp
    with False assms show ?thesis by (simp add: deletePage_def Let_def)
  qed
  show "openDocs (deletePage eng confirmed s) = openDocs s"
    "undoStack (deletePage eng confirmed s) = undoStack s"
    "events (deletePage eng confirmed s) = events s @ [ShowDialog ''Warning'' ''Cannot delete all pages.'']"
    unfolding 1 by (simp_all add: showDialog_def)
qed

theorem delete_all_pages_rejected_witness:
  "getActiveDoc oneDocApp \<noteq> None \<and>
   map pageCount (openDocs (deletePages demoEngine [1, 2, 3] oneDocApp)) = [3] \<and>
   map pdfBytes (openDocs (deletePages demoEngine [1, 2, 3] oneDocApp)) = [[1]] \<and>
   events (deletePages demoEngine [1, 2, 3] oneDocApp) =
     [RasterLoad [1], ShowDialog ''Warning'' ''Cannot delete all pages.''] \<and>
   map pageCount (openDocs (deletePage demoEngine True selApp)) = [3] \<and>
   events (deletePage demoEngine True selApp) =
     [RasterLoad [1], ShowDialog ''Warning'' ''Cannot delete all pages.''] \<and>
   getActiveDoc onePageApp \<noteq> None \<and>
   map pageCount (openDocs (deletePages onePageEngine [] onePageApp)) = [1] \<and>
   map pdfBytes (openDocs (deletePages onePageEngine [] onePageApp)) = [[1]] \<and>
   events (deletePages onePageEngine [] onePageApp) =
     [RasterLoad [1], ShowDialog ''Warning'' ''Cannot delete all pages.''] \<and>
   map pageCount (openDocs (deletePage onePageEngine True onePageApp)) = [1] \<and>
   events (deletePage onePageEngine True onePageApp) =
     [RasterLoad [1], ShowDialog ''Warning'' ''Cannot delete all pages.'']"
proof -
  let ?d = "\<lparr> doc_id = 1, name = ''a.pdf'', pdfBytes = [1], pageCount = 3,
        currentPage = 1, zoom = 1, selectedPages = [] \<rparr>"
  let ?e = "\<lparr> doc_id = 1, name = ''a.pdf'', pdfBytes = [1], pageCount = 3,
        currentPage = 1, zoom = 1, selectedPages = [1, 2, 3] \<rparr>"
  let ?f = "\<lparr> doc_id = 1, name = ''a.pdf'', pdfBytes = [1], pageCount = 1,
        currentPage = 1, zoom = 1, selectedPages = [] \<rparr>"
  have g1: "getActiveDoc oneDocApp = Some ?d" by (simp add: oneDocApp_eq getActiveDoc_def)
  have g2: "getActiveDoc selApp = Some ?e" by (simp add: selApp_eq getActiveDoc_def)
  have g3: "getActiveDoc onePageApp = Some ?f" by (simp add: onePageApp_eq getActiveDoc_def)
  have p1: "int (length (if length [1, 2, 3 :: int] = 0 then [currentPage ?d] else [1, 2, 3]))
      \<ge> pageCount ?d" by simp
  have p2: "int (length (if length (getSelectedPages selApp) > 0 then getSelectedPages selApp
                       else [currentPage ?e])) \<ge> pageCount ?e"
    by (simp add: getSelectedPages_def g2)
  have p3: "int (length (if length ([] :: int list) = 0 then [currentPage ?f] else []))
      \<ge> pageCount ?f" by simp
  have p4: "int (length (if length (getSelectedPages onePageApp) > 0
                       then getSelectedPages onePageApp else [currentPage ?f])) \<ge> pageCount ?f"
    by (simp add: getSelectedPages_def g3)
  from delete_all_pages_rejected [OF g1, where pageNums = "[1, 2, 3]" and eng = demoEngine] p1
  have a: "openDocs (deletePages demoEngine [1, 2, 3] oneDocApp) = openDocs oneDocApp"
    "events (deletePages demoEngine [1, 2, 3] oneDocApp) =
       events oneDocApp @ [ShowDialog ''Warning'' ''Cannot delete all pages.'']" by blast+
  from delete_all_pages_rejected [OF g2, where eng = demoEngine and confirmed = True] p2
  have b: "openDocs (deletePage demoEngine True selApp) = openDocs selApp"
    "events (deletePage demoEngine True selApp) =
       events selApp @ [ShowDialog ''Warning'' ''Cannot delete all pages.'']" by blast+
  from delete_all_pages_rejected [OF g3, where pageNums = "[]" and eng = onePageEngine] p3
  have c: "openDocs (deletePages onePageEngine [] onePageApp) = openDocs onePageApp"
    "events (deletePages onePageEngine [] onePageApp) =
       events onePageApp @ [ShowDialog ''Warning'' ''Cannot delete all pages.'']" by blast+
  from delete_all_pages_rejected [OF g3, where eng = onePageEngine and confirmed = True] p4
  have d: "openDocs (deletePage onePageEngine True onePageApp) = openDocs onePageApp"
    "events (deletePage onePageEngine True onePageApp) =
       events onePageApp @ [ShowDialog ''Warning'' ''Cannot delete all pages.'']" by blast+
  from g1 g3 show ?thesis unfolding a b c d by (simp add: oneDocApp_eq selApp_eq onePageApp_eq)
qed

subsection \<open>C7: the bounded undo stack\<close>

text \<open>
  C7: starting from a stack of at most 50 actions, after any sequence of pushes the stack
  holds the last 50 of all actions (so never more than 50, the oldest evicted first), and
  after at least one push the redo stack is empty. After 51 pushes onto the empty stack the
  stack is the sequence without its first action, and that action, if no later one equals
  it, is no longer on the stack.
\<close>

theorem undo_stack_bounded:
  assumes "length (undoStack s) \<le> MAX_UNDO"
  shows "length (undoStack (pushAll acts s)) \<le> 50 \<and>
         undoStack (pushAll acts s) = drop (length (undoStack s @ acts) - 50) (undoStack s @ acts) \<and>
         (acts \<noteq> [] \<longrightarrow> redoStack (pushAll acts s) = []) \<and>
         (undoStack s = [] \<and> length acts = 51 \<longrightarrow>
            undoStack (pushAll acts s) = tl acts \<and>
            (distinct acts \<longrightarrow> hd acts \<notin> set (undoStack (pushAll acts s))))"
proof -
  have d: "undoStack (pushAll acts s) = drop (length (undoStack s @ acts) - 50) (undoStack s @ acts)"
    using pushAll_drop [OF assms, of acts] by (simp add: pushAll_def MAX_UNDO_def)
  have l: "length (undoStack (pushAll acts s)) \<le> 50" unfolding d by simp
  have r: "acts \<noteq> [] \<longrightarrow> redoStack (pushAll acts s) = []"
    by (simp add: pushAll_def pushAll_redo)
  have t: "undoStack s = [] \<and> length acts = 51 \<longrightarrow>
            undoStack (pushAll acts s) = tl acts \<and>
            (distinct acts \<longrightarrow> hd acts \<notin> set (undoStack (pushAll acts s)))"
  proof (intro impI, elim conjE)
    assume e: "undoStack s = []" and n: "length acts = 51"
    then obtain a rest where ar: "acts = a # rest" by (cases acts) auto
    from d e n ar show "undoStack (pushAll acts s) = tl acts \<and>
            (distinct acts \<longrightarrow> hd acts \<notin> set (undoStack (pushAll acts s)))" by simp
  qed
  from l d r t show ?thesis by blast
qed

theorem undo_stack_bounded_witness:
  "length (undoStack initialApp) \<le> MAX_UNDO \<and>
   length (sampleActions 51) = 51 \<and>
   length (undoStack (pushAll (sampleActions 51) initialApp)) = 50 \<and>
   undoStack (pushAll (sampleActions 51) initialApp) = tl (sampleActions 51) \<and>
   hd (sampleActions 51) \<notin> set (undoStack (pushAll (sampleActions 51) initialApp)) \<and>
   redoStack (pushAll (sampleActions 51) initialApp) = []"
proof -
  have h: "length (undoStack initialApp) \<le> MAX_UNDO" by (simp add: initialApp_def)
  have e: "undoStack initialApp = []" by (simp add: initialApp_def)
  have n: "length (sampleActions 51) = 51" by (simp add: sampleActions_def)
  then have ne: "sampleActions 51 \<noteq> []" by auto
  note t = undo_stack_bounded [OF h, of "sampleActions 51"]
  from t e n have 1: "undoStack (pushAll (sampleActions 51) initialApp) = tl (sampleActions 51)"
    by blast
  from t e n sampleActions_distinct [of 51]
  have 2: "hd (sampleActions 51) \<notin> set (undoStack (pushAll (sampleActions 51) initialApp))"
    by blast
  from t ne have 3: "redoStack (pushAll (sampleActions 51) initialApp) = []" by blast
  have 4: "length (undoStack (pushAll (sampleActions 51) initialApp)) = 50"
    unfolding 1 using n by simp
  from h n 1 2 3 4 show ?thesis by blast
qed

subsection \<open>C8: undo and redo of a text box\<close>

text \<open>
  C8: \<open>createTextBox\<close> records a box with the next id and the given page, position and
  text. Undo right afterwards removes it, and redo then restores that very box as the last
  one, so the list of text boxes and the undo stack are as they were after the creation.
  If the boxes were moved or retyped in between (any change \<open>e\<close> that keeps their ids), redo
  still restores the box as recorded at its creation. (All ids so far were issued by the
  counter.)
\<close>

theorem undo_redo_restores_text_box:
  assumes "boxIdsIssued s"
  shows "(case createTextBox pn px py str fs s of (b, s1) \<Rightarrow>
           box_id b = nextBoxId s \<and> box_pageNum b = pn \<and> box_x b = px \<and> box_y b = py \<and>
           box_text b = str \<and>
           textBoxes s1 = textBoxes s @ [b] \<and>
           textBoxes (stateOf (undo eng s1)) = textBoxes s \<and>
           textBoxes (redo (stateOf (undo eng s1))) = textBoxes s @ [b] \<and>
           undoStack (redo (stateOf (undo eng s1))) = undoStack s1 \<and>
           redoStack (redo (stateOf (undo eng s1))) = redoStack s1 \<and>
           (\<forall>e. (\<forall>t. box_id (e t) = box_id t) \<longrightarrow>
              textBoxes (redo (stateOf (undo eng (s1\<lparr>textBoxes := map e (textBoxes s1)\<rparr>)))) =
                map e (textBoxes s) @ [b]))"
proof -
  obtain b s1 where c: "createTextBox pn px py str fs s = (b, s1)" by (cases "createTextBox pn px py str fs s")
  from c have b: "b = \<lparr> box_id = nextBoxId s, box_pageNum = pn, box_x = px, box_y = py,
                 box_width = 150, box_height = 24, box_text = str, box_fontSize = fs,
                 box_fontFamily = ''Helvetica'' \<rparr>"
    and s1: "s1 = pushUndo (AddText b) (s\<lparr>nextBoxId := nextBoxId s + 1, textBoxes := textBoxes s @ [b]\<rparr>)"
    by (auto simp: createTextBox_def Let_def)
  have tb: "textBoxes s1 = textBoxes s @ [b]" by (simp add: s1)
  have top: "undoStack s1 \<noteq> []" "last (undoStack s1) = AddText b"
    unfolding s1 using pushUndo_last by blast+
  have fresh: "filter (\<lambda>t. box_id t \<noteq> box_id b) (textBoxes s) = textBoxes s"
    using assms by (auto simp: boxIdsIssued_def list_all_iff b filter_id_conv)
  have f: "filter (\<lambda>t. box_id t \<noteq> box_id b) (textBoxes s1) = textBoxes s"
    by (simp add: tb fresh)
  have edited: "textBoxes (redo (stateOf (undo eng (s1\<lparr>textBoxes := map e (textBoxes s1)\<rparr>)))) =
                map e (textBoxes s) @ [b]" if ids: "\<forall>t. box_id (e t) = box_id t" for e
  proof -
    let ?s = "s1\<lparr>textBoxes := map e (textBoxes s1)\<rparr>"
    have top1: "undoStack ?s \<noteq> []" "last (undoStack ?s) = AddText b" using top by simp_all
    have "filter (\<lambda>t. box_id t \<noteq> box_id b) (map e (textBoxes s1)) =
          map e (filter (\<lambda>t. box_id t \<noteq> box_id b) (textBoxes s1))"
      using ids by (simp add: filter_map comp_def)
    with f undo_redo_AddText(2) [OF top1, of eng] show ?thesis by simp
  qed
  from undo_redo_AddText [OF top, of eng] f tb b edited
  show ?thesis unfolding c by simp
qed

theorem undo_redo_restores_text_box_witness:
  "boxIdsIssued initialApp \<and>
   textBoxes (stateOf (undo demoEngine (snd (createTextBox 1 10 20 ''hi'' 14 initialApp)))) = [] \<and>
   textBoxes (redo (stateOf (undo demoEngine (snd (createTextBox 1 10 20 ''hi'' 14 initialApp))))) =
     [\<lparr> box_id = 1, box_pageNum = 1, box_x = 10, box_y = 20, box_width = 150, box_height = 24,
        box_text = ''hi'', box_fontSize = 14, box_fontFamily = ''Helvetica'' \<rparr>] \<and>
   textBoxes (redo (stateOf (undo demoEngine
       ((snd (createTextBox 1 10 20 ''hi'' 14 initialApp))
          \<lparr>textBoxes := map (\<lambda>t. t\<lparr>box_text := ''hello''\<rparr>)
             (textBoxes (snd (createTextBox 1 10 20 ''hi'' 14 initialApp)))\<rparr>)))) =
     [\<lparr> box_id = 1, box_pageNum = 1, box_x = 10, box_y = 20, box_width = 150, box_height = 24,
        box_text = ''hi'', box_fontSize = 14, box_fontFamily = ''Helvetica'' \<rparr>]"
proof -
  have h: "boxIdsIssued initialApp" by (simp add: boxIdsIssued_def initialApp_def)
  obtain b s1 where c: "createTextBox 1 10 20 ''hi'' 14 initialApp = (b, s1)"
    by (cases "createTextBox 1 10 20 ''hi'' 14 initialApp")
  from c have b: "b = \<lparr> box_id = 1, box_pageNum = 1, box_x = 10, box_y = 20, box_width = 150,
        box_height = 24, box_text = ''hi'', box_fontSize = 14, box_fontFamily = ''Helvetica'' \<rparr>"
    by (auto simp: createTextBox_def Let_def initialApp_def)
  note th = undo_redo_restores_text_box [OF h, where pn = 1 and px = 10 and py = 20
      and str = "''hi''" and fs = 14 and eng = demoEngine]
  from th [unfolded c prod.case]
  have t: "textBoxes (stateOf (undo demoEngine s1)) = textBoxes initialApp \<and>
        textBoxes (redo (stateOf (undo demoEngine s1))) = textBoxes initialApp @ [b] \<and>
        (\<forall>e. (\<forall>t. box_id (e t) = box_id t) \<longrightarrow>
              textBoxes (redo (stateOf (undo demoEngine (s1\<lparr>textBoxes := map e (textBoxes s1)\<rparr>)))) =
                map e (textBoxes initialApp) @ [b])"
    by blast
  have "\<forall>t::textBox. box_id (t\<lparr>box_text := ''hello''\<rparr>) = box_id t" by simp
  with t have "textBoxes (redo (stateOf (undo demoEngine
      (s1\<lparr>textBoxes := map (\<lambda>t. t\<lparr>box_text := ''hello''\<rparr>) (textBoxes s1)\<rparr>)))) =
        map (\<lambda>t. t\<lparr>box_text := ''hello''\<rparr>) (textBoxes initialApp) @ [b]"
    by blast
  with h t show ?thesis unfolding c by (simp add: b initialApp_def)
qed

subsection \<open>C9: switching away and back\<close>

text \<open>
  C9: with distinct session ids, switching from the active session \<open>d\<close> to another open
  session and back makes \<open>d\<close> active again with all its fields (current page, zoom,
  selection among them) as before; no session changes. Scroll events of the browser, which
  may assign the current page while pages are repainted, are not part of the two calls.
\<close>

theorem switch_away_and_back:
  assumes "distinct (map doc_id (openDocs s))"
    and "getActiveDoc s = Some d"
    and "other \<in> set (openDocs s)" and "doc_id other \<noteq> doc_id d"
  shows "getActiveDoc (switchToDocument (doc_id other) s) = Some other \<and>
         getActiveDoc (switchToDocument (doc_id d) (switchToDocument (doc_id other) s)) = Some d \<and>
         openDocs (switchToDocument (doc_id d) (switchToDocument (doc_id other) s)) = openDocs s"
proof -
  from assms(2) have din: "d \<in> set (openDocs s)"
    by (auto simp: getActiveDoc_def split: if_splits)
  from switchToDocument_member [OF assms(1) assms(3)]
  have 1: "getActiveDoc (switchToDocument (doc_id other) s) = Some other"
    and 2: "openDocs (switchToDocument (doc_id other) s) = openDocs s" by simp_all
  from switchToDocument_member [of "switchToDocument (doc_id other) s" d] 2 assms(1) din 1
  show ?thesis by simp
qed

theorem switch_away_and_back_witness:
  "idsDistinct busyApp \<and>
   getActiveDoc busyApp =
     Some \<lparr> doc_id = 3, name = ''c.pdf'', pdfBytes = [3], pageCount = 3,
            currentPage = 3, zoom = 1.25, selectedPages = [2] \<rparr> \<and>
   map_option doc_id (getActiveDoc (switchToDocument 1 busyApp)) = Some 1 \<and>
   getActiveDoc (switchToDocument 3 (switchToDocument 1 busyApp)) =
     Some \<lparr> doc_id = 3, name = ''c.pdf'', pdfBytes = [3], pageCount = 3,
            currentPage = 3, zoom = 1.25, selectedPages = [2] \<rparr>"
proof -
  let ?d1 = "\<lparr> doc_id = 1, name = ''a.pdf'', pdfBytes = [1], pageCount = 3,
          currentPage = 1, zoom = 1, selectedPages = [] \<rparr>"
  let ?d3 = "\<lparr> doc_id = 3, name = ''c.pdf'', pdfBytes = [3], pageCount = 3,
            currentPage = 3, zoom = 1.25, selectedPages = [2] \<rparr>"
  have h1: "distinct (map doc_id (openDocs busyApp))" by (simp add: busyApp_eq)
  have h2: "getActiveDoc busyApp = Some ?d3" by (simp add: busyApp_eq getActiveDoc_def)
  have h3: "?d1 \<in> set (openDocs busyApp)" by (simp add: busyApp_eq)
  have h4: "doc_id ?d1 \<noteq> doc_id ?d3" by simp
  from switch_away_and_back [OF h1 h2 h3 h4] h1 h2 show ?thesis
    by (simp add: idsDistinct_def)
qed

subsection \<open>C10: the active index after a close\<close>

text \<open>
  C10: with at least two sessions open, \<open>closeDocument\<close> of the session at index \<open>idx\<close>
  sets the active index to the minimum of \<open>idx\<close> and the remaining count minus 1,
  whatever the active index was before. So closing a session that is not active can change
  the active one: with sessions 1, 2, 3 open and 3 active, closing 1 makes 2 active.
\<close>

theorem closeDocument_active_index:
  assumes "idsDistinct s"
    and "findIndex (\<lambda>d. doc_id d = docId) (openDocs s) = idx" and "idx \<noteq> - 1"
    and "length (openDocs s) \<ge> 2"
  shows "activeDocIndex (closeDocument docId (s\<lparr>activeDocIndex := a\<rparr>)) =
           min idx (int (length (openDocs (closeDocument docId (s\<lparr>activeDocIndex := a\<rparr>)))) - 1) \<and>
         map_option doc_id (getActiveDoc demoApp) = Some 3 \<and>
         map_option doc_id (getActiveDoc (closeDocument 1 demoApp)) = Some 2"
proof -
  let ?s = "s\<lparr>activeDocIndex := a\<rparr>"
  from assms(1) have d: "distinct (map doc_id (openDocs ?s))" by (simp add: idsDistinct_def)
  have i: "findIndex (\<lambda>d. doc_id d = docId) (openDocs ?s) = idx" using assms(2) by simp
  have len: "length (openDocs ?s) > 1" using assms(4) by simp
  note c = closeDocument_nonempty [OF d i assms(3) len]
  from findIndex_found assms(2,3) have r: "0 \<le> idx" "idx < int (length (openDocs s))" by blast+
  have l: "length (splice1 idx (openDocs s)) = length (openDocs s) - 1"
    using r by (rule splice1_length)
  have 1: "activeDocIndex (closeDocument docId ?s) =
           min idx (int (length (openDocs (closeDocument docId ?s))) - 1)"
    unfolding c using l assms(4) by simp
  have 2: "map_option doc_id (getActiveDoc demoApp) = Some 3"
    by (simp add: demoApp_eq getActiveDoc_def)
  have 3: "map_option doc_id (getActiveDoc (closeDocument 1 demoApp)) = Some 2"
    by (simp add: getActiveDoc_def demoApp_close1)
  from 1 2 3 show ?thesis by blast
qed

theorem closeDocument_active_index_witness:
  "idsDistinct demoApp \<and> findIndex (\<lambda>d. doc_id d = 1) (openDocs demoApp) = 0 \<and>
   length (openDocs demoApp) \<ge> 2 \<and>
   activeDocIndex (closeDocument 1 (demoApp\<lparr>activeDocIndex := 2\<rparr>)) = 0"
proof -
  have h1: "idsDistinct demoApp" by (simp add: idsDistinct_def demoApp_eq)
  have h2: "findIndex (\<lambda>d. doc_id d = 1) (openDocs demoApp) = 0" by (simp add: demoApp_eq)
  have h3: "(0::int) \<noteq> - 1" by simp
  have h4: "length (openDocs demoApp) \<ge> 2" by (simp add: demoApp_eq)
  have same: "demoApp\<lparr>activeDocIndex := 2\<rparr> = demoApp" by (simp add: demoApp_eq)
  have l: "length (openDocs (closeDocument 1 demoApp)) = 2" by (simp add: demoApp_close1)
  from closeDocument_active_index [OF h1 h2 h3 h4, of 2] l
  have "activeDocIndex (closeDocument 1 (demoApp\<lparr>activeDocIndex := 2\<rparr>)) = 0"
    unfolding same by simp
  with h1 h2 h4 show ?thesis by blast
qed

end
